theory Spec2Isabelle
  imports Complex_Main "HOL-Library.Word"
begin

section \<open>Live captioning pipeline: capture, bounded queue, batch assembly, transcription\<close>

text \<open>
  A shallow embedding of \<^verbatim>\<open>live_captioning.py\<close>: the module constants, the bounded
  \<^verbatim>\<open>queue.Queue\<close> shared by the audio callback and the timer tick, the callback
  \<^verbatim>\<open>audio_callback\<close>, the tick \<^verbatim>\<open>process_audio\<close>, and the start-up code of
  \<^verbatim>\<open>main\<close> (engine loading, device resolution, stream opening).

  Everything outside the program (the speech engine, the sound driver, the dialog, the
  configuration file) is an input of the model: a value or a function handed to the
  definition that uses it. Printing appends a line to \<open>stdout\<close>.
\<close>

subsection \<open>Configuration constants\<close>

definition DEVICE_NAME :: string where
  "DEVICE_NAME = ''CABLE Output (VB-Audio Virtual Cable''"

definition SAMPLE_RATE :: int where
  "SAMPLE_RATE = 16000"

definition CHANNELS :: int where
  "CHANNELS = 1"

definition BLOCKSIZE :: int where
  "BLOCKSIZE = 8000"

definition MAX_QUEUE_SECONDS :: int where
  "MAX_QUEUE_SECONDS = 5"

text \<open>
  \<^verbatim>\<open>max(1, int((MAX_QUEUE_SECONDS * SAMPLE_RATE) / max(1, BLOCKSIZE)))\<close>: both operands
  are positive, so truncating the quotient is integer division.
\<close>

definition MAX_QUEUE_SIZE :: nat where
  "MAX_QUEUE_SIZE = nat (max 1 ((MAX_QUEUE_SECONDS * SAMPLE_RATE) div max 1 BLOCKSIZE))"

definition AUDIO_QUEUE_MAXSIZE :: nat where
  "AUDIO_QUEUE_MAXSIZE = max 2 (MAX_QUEUE_SIZE * 2)"

subsection \<open>The bounded queue\<close>

text \<open>
  \<^verbatim>\<open>queue.Queue(maxsize)\<close>: a FIFO with the oldest element at the head of \<open>items\<close>.
  A \<open>maxsize\<close> of 0 means unbounded, as in Python. Only the non-blocking operations the
  program calls are modelled; each is one atomic step of the lock-protected queue.
\<close>

record 'a py_queue =
  maxsize :: nat
  items :: "'a list"

datatype queue_error = Empty | Full

definition Queue :: "nat \<Rightarrow> 'a py_queue" where
  "Queue n = \<lparr>maxsize = n, items = []\<rparr>"

definition qsize :: "'a py_queue \<Rightarrow> nat" where
  "qsize q = length (items q)"

definition queue_empty :: "'a py_queue \<Rightarrow> bool" where
  "queue_empty q = (items q = [])"

definition queue_full :: "'a py_queue \<Rightarrow> bool" where
  "queue_full q = (0 < maxsize q \<and> maxsize q \<le> qsize q)"

definition get_nowait :: "'a py_queue \<Rightarrow> queue_error + ('a \<times> 'a py_queue)" where
  "get_nowait q =
     (case items q of
        [] \<Rightarrow> Inl Empty
      | x # xs \<Rightarrow> Inr (x, q\<lparr>items := xs\<rparr>))"

definition put_nowait :: "'a py_queue \<Rightarrow> 'a \<Rightarrow> queue_error + 'a py_queue" where
  "put_nowait q x =
     (if 0 < maxsize q \<and> maxsize q \<le> qsize q then Inl Full
      else Inr (q\<lparr>items := items q @ [x]\<rparr>))"

text \<open>
  The push of \<^verbatim>\<open>audio_callback\<close> (the \<^verbatim>\<open>try\<close> block under the amplitude test): when the
  queue is full, take one element out (ignoring \<^verbatim>\<open>queue.Empty\<close>), then put the new one
  (ignoring \<^verbatim>\<open>queue.Full\<close>, in which case the element taken out stays out).
\<close>

definition push_drop_oldest :: "'a py_queue \<Rightarrow> 'a \<Rightarrow> 'a py_queue" where
  "push_drop_oldest q x =
     (let q1 = (if queue_full q
                then (case get_nowait q of Inl _ \<Rightarrow> q | Inr (_, q') \<Rightarrow> q')
                else q)
      in case put_nowait q1 x of Inl _ \<Rightarrow> q1 | Inr q2 \<Rightarrow> q2)"

text \<open>
  The drain loop of \<^verbatim>\<open>process_audio\<close>:
  \<^verbatim>\<open>for _ in range(n): try: chunks.append(audio_q.get_nowait()) except queue.Empty: break\<close>.
  The program runs it with \<open>n = MAX_QUEUE_SIZE\<close>.
\<close>

fun drain_up_to :: "nat \<Rightarrow> 'a list \<Rightarrow> 'a py_queue \<Rightarrow> 'a list \<times> 'a py_queue" where
  "drain_up_to 0 chunks q = (chunks, q)"
| "drain_up_to (Suc n) chunks q =
     (case get_nowait q of
        Inl _ \<Rightarrow> (chunks, q)
      | Inr (x, q') \<Rightarrow> drain_up_to n (chunks @ [x]) q')"

subsection \<open>Sample buffers\<close>

text \<open>
  The stream is opened with \<^verbatim>\<open>dtype='int16'\<close>, so every delivered buffer is an array of
  16-bit signed samples. \<^verbatim>\<open>process_audio\<close> also has a branch for buffers that are not
  \<^verbatim>\<open>int16\<close>; a \<^verbatim>\<open>float32\<close> buffer stands for it. A finite \<^verbatim>\<open>float32\<close> is a rational
  number, and so is every quotient of a 16-bit integer by \<open>2 ^ 15\<close> (the conversion of
  an \<^verbatim>\<open>int16\<close> to \<^verbatim>\<open>float32\<close> and the division by a power of two are both exact), so
  amplitudes are of type \<^typ>\<open>rat\<close>. The buffers are flattened: one channel.
\<close>

datatype ndarray = Int16 "16 word list" | Float32 "rat list"

datatype py_error = ValueError

text \<open>\<^verbatim>\<open>np.abs\<close> on \<^verbatim>\<open>int16\<close> stays in \<^verbatim>\<open>int16\<close>: the negation wraps at \<open>-32768\<close>.\<close>

definition np_abs_i16 :: "16 word \<Rightarrow> 16 word" where
  "np_abs_i16 w = (if sint w < 0 then - w else w)"

text \<open>\<^verbatim>\<open>np.max\<close> raises \<^verbatim>\<open>ValueError\<close> on an empty array.\<close>

fun np_max :: "rat list \<Rightarrow> py_error + rat" where
  "np_max [] = Inl ValueError"
| "np_max (x # xs) = Inr (fold max xs x)"

text \<open>\<^verbatim>\<open>np.max(np.abs(a))\<close> as a number.\<close>

fun max_abs :: "ndarray \<Rightarrow> py_error + rat" where
  "max_abs (Int16 ws) = np_max (map (\<lambda>w. of_int (sint (np_abs_i16 w))) ws)"
| "max_abs (Float32 xs) = np_max (map abs xs)"

text \<open>
  \<^verbatim>\<open>np.concatenate(chunks, axis=0).flatten()\<close>: the result is \<^verbatim>\<open>int16\<close> when every
  chunk is, and \<^verbatim>\<open>float32\<close> otherwise, the 16-bit samples promoted without loss.
\<close>

fun is_int16 :: "ndarray \<Rightarrow> bool" where
  "is_int16 (Int16 _) = True"
| "is_int16 (Float32 _) = False"

fun int16_data :: "ndarray \<Rightarrow> 16 word list" where
  "int16_data (Int16 ws) = ws"
| "int16_data (Float32 _) = []"

fun float_data :: "ndarray \<Rightarrow> rat list" where
  "float_data (Int16 ws) = map (\<lambda>w. of_int (sint w)) ws"
| "float_data (Float32 xs) = xs"

definition concatenate :: "ndarray list \<Rightarrow> ndarray" where
  "concatenate chunks =
     (if list_all is_int16 chunks then Int16 (concat (map int16_data chunks))
      else Float32 (concat (map float_data chunks)))"

text \<open>
  The normalisation of \<^verbatim>\<open>process_audio\<close>:
  \<^verbatim>\<open>audio.astype(np.float32) / 32768.0\<close> if the buffer is \<^verbatim>\<open>int16\<close>, and
  \<^verbatim>\<open>audio.astype(np.float32)\<close> otherwise.
\<close>

fun normalize_audio :: "ndarray \<Rightarrow> rat list" where
  "normalize_audio (Int16 ws) = map (\<lambda>w. of_int (sint w) / 32768) ws"
| "normalize_audio (Float32 xs) = xs"

text \<open>\<^verbatim>\<open>np.max(np.abs(audio)) if audio.size else 0\<close>.\<close>

definition peak_of :: "rat list \<Rightarrow> rat" where
  "peak_of audio = (case np_max (map abs audio) of Inl _ \<Rightarrow> 0 | Inr p \<Rightarrow> p)"

subsection \<open>The caption window\<close>

text \<open>
  \<^verbatim>\<open>CaptionWindow\<close>, reduced to the text it shows. A new window is in mode \<^verbatim>\<open>live\<close>.
  \<^verbatim>\<open>append_transcript\<close> inserts the text and a newline at the start of the history (or of
  the comprehensive transcript), and in live mode shows the text as the big caption.
  The toolkit calls are taken not to raise.
\<close>

record caption_window =
  mode :: string
  big_label :: string
  history :: string
  comprehensive_text :: string

definition CaptionWindow :: caption_window where
  "CaptionWindow =
     \<lparr>mode = ''live'', big_label = ''Listening to system audio...'',
      history = [], comprehensive_text = []\<rparr>"

definition append_transcript :: "caption_window \<Rightarrow> string \<Rightarrow> caption_window" where
  "append_transcript w txt =
     (if mode w = ''live''
      then w\<lparr>big_label := txt, history := txt @ [CHR 0x0A] @ history w\<rparr>
      else w\<lparr>comprehensive_text := txt @ [CHR 0x0A] @ comprehensive_text w\<rparr>)"

subsection \<open>Program state\<close>

text \<open>
  \<^verbatim>\<open>WhisperModel(name, device=..., compute_type=...)\<close> yields a handle that remembers
  what it was loaded with.
\<close>

record whisper_model =
  model_size_or_path :: string
  device :: string
  compute_type :: string

text \<open>
  The module globals \<^verbatim>\<open>audio_q\<close>, \<^verbatim>\<open>model\<close> and \<^verbatim>\<open>window\<close>, the lines printed so
  far, and two traces kept for the statements below: the arguments of every call of
  \<^verbatim>\<open>WhisperModel\<close> that reached the constructor, and the arguments
  (audio, \<^verbatim>\<open>vad_filter\<close>, \<^verbatim>\<open>language\<close>) of every call of \<^verbatim>\<open>model.transcribe\<close>.
\<close>

record state =
  audio_q :: "ndarray py_queue"
  model :: "whisper_model option"
  window :: "caption_window option"
  stdout :: "string list"
  load_attempts :: "(string \<times> string \<times> string) list"
  transcribe_calls :: "(rat list \<times> bool \<times> string) list"

definition initial_state :: state where
  "initial_state =
     \<lparr>audio_q = Queue AUDIO_QUEUE_MAXSIZE, model = None, window = None, stdout = [],
      load_attempts = [], transcribe_calls = []\<rparr>"

definition print :: "state \<Rightarrow> string \<Rightarrow> state" where
  "print s line = s\<lparr>stdout := stdout s @ [line]\<rparr>"

subsection \<open>The capture callback\<close>

text \<open>
  \<^verbatim>\<open>audio_callback(indata, frames, time, status)\<close>. \<open>status\<close> is the text of the driver's
  flags, empty when no flag is set. The result is the exception the callback raised, if
  any, and the state it left.
\<close>

definition audio_callback :: "ndarray \<Rightarrow> string \<Rightarrow> state \<Rightarrow> py_error option \<times> state" where
  "audio_callback indata status s =
     (let s1 = (if status \<noteq> [] then print s (''[AUDIO CALLBACK WARNING] '' @ status) else s)
      in case max_abs indata of
           Inl e \<Rightarrow> (Some e, s1)
         | Inr max_amp \<Rightarrow>
             if max_amp > 1 / 100
             then (None, s1\<lparr>audio_q := push_drop_oldest (audio_q s1) indata\<rparr>)
             else (None, s1))"

subsection \<open>The periodic tick\<close>

text \<open>
  The engine is an input: called for the \<open>k\<close>-th time on a handle and a buffer, it yields
  the texts of the segments its generator produces and, if the call or the generator
  raises, the message of the exception raised after them.
\<close>

type_synonym engine = "nat \<Rightarrow> whisper_model \<Rightarrow> rat list \<Rightarrow> string list \<times> string option"

text \<open>
  The body of the loop over the segments: \<^verbatim>\<open>window.append_transcript(segment.text)\<close>, with
  \<^verbatim>\<open>print(segment.text)\<close> when that raises (there is no window), then the
  \<^verbatim>\<open>[TRANSCRIPTION]\<close> line.
\<close>

definition forward_segment :: "state \<Rightarrow> string \<Rightarrow> state" where
  "forward_segment s txt =
     (let s1 = (case window s of
                  None \<Rightarrow> print s txt
                | Some w \<Rightarrow> s\<lparr>window := Some (append_transcript w txt)\<rparr>)
      in print s1 (''[TRANSCRIPTION] '' @ txt))"

text \<open>Which \<^verbatim>\<open>return\<close> of \<^verbatim>\<open>process_audio\<close> ended the tick.\<close>

datatype tick_outcome =
  Queue_was_empty
| No_chunks
| Silent
| Model_not_loaded
| Transcribed
| Transcription_failed string

definition process_audio :: "engine \<Rightarrow> state \<Rightarrow> tick_outcome \<times> state" where
  "process_audio transcribe s =
     (if queue_empty (audio_q s) then (Queue_was_empty, s)
      else
        let (chunks, q') = drain_up_to MAX_QUEUE_SIZE [] (audio_q s);
            s1 = s\<lparr>audio_q := q'\<rparr>
        in if chunks = [] then (No_chunks, s1)
           else
             let audio = normalize_audio (concatenate chunks);
                 peak = peak_of audio
             in if peak < 1 / 1000 then (Silent, s1)
                else
                  case model s1 of
                    None \<Rightarrow>
                      (Model_not_loaded,
                       print s1 ''[ERROR] Model not loaded yet; skipping transcription.'')
                  | Some m \<Rightarrow>
                      let (segments, raised) = transcribe (length (transcribe_calls s1)) m audio;
                          s2 = s1\<lparr>transcribe_calls :=
                                    transcribe_calls s1 @ [(audio, True, ''en'')]\<rparr>;
                          s3 = foldl forward_segment s2 segments
                      in (case raised of
                            None \<Rightarrow> (Transcribed, s3)
                          | Some e \<Rightarrow>
                              (Transcription_failed e,
                               print s3 (''[ERROR] Transcription failed: '' @ e))))"

text \<open>
  Two names for what a tick on a non-empty queue works with: the frames it takes out of
  the queue, the buffer it assembles from them, and the queue it leaves behind.
\<close>

definition drained_chunks :: "state \<Rightarrow> ndarray list" where
  "drained_chunks s = fst (drain_up_to MAX_QUEUE_SIZE [] (audio_q s))"

definition drained_queue :: "state \<Rightarrow> ndarray py_queue" where
  "drained_queue s = snd (drain_up_to MAX_QUEUE_SIZE [] (audio_q s))"

definition assembled_batch :: "state \<Rightarrow> rat list" where
  "assembled_batch s = normalize_audio (concatenate (drained_chunks s))"

subsection \<open>The configuration file\<close>

text \<open>
  What \<^verbatim>\<open>json.load\<close> can yield from \<^verbatim>\<open>config.json\<close>. In a dictionary a later binding of a
  key replaces an earlier one.
\<close>

datatype json =
  JNull
| JBool bool
| JInt int
| JFloat rat
| JStr string
| JList "json list"
| JDict "(string \<times> json) list"

text \<open>Python's truth value of such a value, as \<^verbatim>\<open>or\<close> and \<^verbatim>\<open>if\<close> test it.\<close>

fun truthy :: "json \<Rightarrow> bool" where
  "truthy JNull = False"
| "truthy (JBool b) = b"
| "truthy (JInt i) = (i \<noteq> 0)"
| "truthy (JFloat x) = (x \<noteq> 0)"
| "truthy (JStr s) = (s \<noteq> [])"
| "truthy (JList xs) = (xs \<noteq> [])"
| "truthy (JDict kvs) = (kvs \<noteq> [])"

fun type_name :: "json \<Rightarrow> string" where
  "type_name JNull = ''NoneType''"
| "type_name (JBool b) = ''bool''"
| "type_name (JInt i) = ''int''"
| "type_name (JFloat x) = ''float''"
| "type_name (JStr s) = ''str''"
| "type_name (JList xs) = ''list''"
| "type_name (JDict kvs) = ''dict''"

text \<open>
  \<^verbatim>\<open>load_config\<close>: the parsed content of the file, whatever its shape, and \<^verbatim>\<open>{}\<close> when the
  file is absent or reading or parsing it raises. The argument is the parsed content, if
  there is one.
\<close>

definition load_config :: "json option \<Rightarrow> json" where
  "load_config file = (case file of None \<Rightarrow> JDict [] | Some j \<Rightarrow> j)"

text \<open>\<^verbatim>\<open>cfg.get(key)\<close>: only a dictionary has the method; on any other value the attribute
  lookup raises \<^verbatim>\<open>AttributeError\<close>, whose message is the left result.\<close>

fun py_get :: "json \<Rightarrow> string \<Rightarrow> string + json option" where
  "py_get (JDict kvs) key = Inr (map_of (rev kvs) key)"
| "py_get j key =
     Inl ([CHR 0x27] @ type_name j @ [CHR 0x27] @ '' object has no attribute ''
          @ [CHR 0x27] @ ''get'' @ [CHR 0x27])"

subsection \<open>Device lookup\<close>

text \<open>\<^verbatim>\<open>str.lower\<close> on the ASCII letters.\<close>

definition lower_char :: "char \<Rightarrow> char" where
  "lower_char c =
     (let n = (of_char c :: nat) in if 65 \<le> n \<and> n \<le> 90 then char_of (n + 32) else c)"

definition lower :: "string \<Rightarrow> string" where
  "lower s = map lower_char s"

fun starts_with :: "'a list \<Rightarrow> 'a list \<Rightarrow> bool" where
  "starts_with [] ys = True"
| "starts_with (x # xs) [] = False"
| "starts_with (x # xs) (y # ys) = (x = y \<and> starts_with xs ys)"

text \<open>\<^verbatim>\<open>xs in ys\<close> on strings.\<close>

fun contains :: "'a list \<Rightarrow> 'a list \<Rightarrow> bool" where
  "contains xs [] = (xs = [])"
| "contains xs (y # ys) = (starts_with xs (y # ys) \<or> contains xs ys)"

fun first_index :: "('a \<Rightarrow> bool) \<Rightarrow> nat \<Rightarrow> 'a list \<Rightarrow> nat option" where
  "first_index P i [] = None"
| "first_index P i (x # xs) = (if P x then Some i else first_index P (Suc i) xs)"

text \<open>
  \<^verbatim>\<open>find_device_by_name\<close>. The first argument is what \<^verbatim>\<open>sd.query_devices()\<close> gives: the
  names of the devices, or nothing when the query raises. The name looked for comes from
  the configuration and need not be a string: on any other value \<^verbatim>\<open>name_substring.lower()\<close>
  raises inside the loop's \<^verbatim>\<open>try\<close> for every device, so no device is found.
\<close>

definition find_device_by_name :: "string list option \<Rightarrow> json \<Rightarrow> nat option" where
  "find_device_by_name devs name_substring =
     (case devs of
        None \<Rightarrow> None
      | Some ds \<Rightarrow>
          (case name_substring of
             JStr name \<Rightarrow> first_index (\<lambda>d. contains (lower name) (lower d)) 0 ds
           | _ \<Rightarrow> None))"

subsection \<open>Start-up\<close>

datatype answer = Yes | No | Dialog_raised

datatype event = Audio ndarray string | Timer_tick

text \<open>
  The import block of \<^verbatim>\<open>main\<close> can end in three ways: an \<^verbatim>\<open>import\<close> statement raises and
  the name \<^verbatim>\<open>WhisperModel\<close> stays unbound; the imports succeed and reading
  \<^verbatim>\<open>faster_whisper.__version__\<close> raises, with the name bound; or the version is printed.
\<close>

datatype import_result = Import_raised string | Version_raised string | Imported string

text \<open>
  What \<^verbatim>\<open>main\<close> reads from outside: the path of the model (the \<^verbatim>\<open>MODEL_PATH\<close> variable,
  else the first directory found under \<^verbatim>\<open>models/whisper\<close>), how the import block ended,
  the answer to the download question, the constructor of the engine (left: the message of
  the exception), the message of the error raised when \<^verbatim>\<open>WhisperModel\<close> is called while
  unbound, the engine's behaviour, the parsed content of \<^verbatim>\<open>config.json\<close> if any, the device
  list, the opening and starting of the input stream on a device index (left: the message
  of the exception), what the event loop delivers while the stream is open, the exception
  with which \<^verbatim>\<open>app.exec_()\<close> ends, if it raises, and the exception raised by the stream's
  \<^verbatim>\<open>__exit__\<close> when it stops and closes the stream, if it raises.
\<close>

record environment =
  model_path :: "string option"
  faster_whisper_import :: import_result
  dialog_answer :: answer
  WhisperModel :: "string \<Rightarrow> string \<Rightarrow> string \<Rightarrow> string + whisper_model"
  unbound_message :: string
  transcribe :: engine
  config_file :: "json option"
  query_devices :: "string list option"
  InputStream :: "nat option \<Rightarrow> string + unit"
  events :: "event list"
  exec_raises :: "string option"
  stream_exit :: "string option"

text \<open>
  A call of \<^verbatim>\<open>WhisperModel\<close> in \<^verbatim>\<open>main\<close>: when an import statement raised, the name is
  unbound and the call raises before any load is attempted.
\<close>

fun name_bound :: "import_result \<Rightarrow> bool" where
  "name_bound (Import_raised _) = False"
| "name_bound (Version_raised _) = True"
| "name_bound (Imported _) = True"

definition call_WhisperModel ::
  "environment \<Rightarrow> state \<Rightarrow> string \<Rightarrow> string \<Rightarrow> string \<Rightarrow> (string + whisper_model) \<times> state" where
  "call_WhisperModel env s name dev ct =
     (if name_bound (faster_whisper_import env)
      then (WhisperModel env name dev ct,
            s\<lparr>load_attempts := load_attempts s @ [(name, dev, ct)]\<rparr>)
      else (Inl (unbound_message env), s))"

text \<open>The handler \<^verbatim>\<open>except Exception as e\<close> of the load: one attempt on the CPU.\<close>

definition cpu_fallback :: "environment \<Rightarrow> string \<Rightarrow> state \<Rightarrow> state" where
  "cpu_fallback env e s =
     (let s1 = print s (''[WARN] GPU model load failed: '' @ e @ ''. Falling back to CPU.'');
          (r, s2) = call_WhisperModel env s1 ''tiny'' ''cpu'' ''int8''
      in case r of
           Inr m \<Rightarrow> print (s2\<lparr>model := Some m\<rparr>) ''[INIT] Model loaded on CPU successfully.''
         | Inl e2 \<Rightarrow> (print s2 (''[ERROR] CPU model load failed: '' @ e2))\<lparr>model := None\<rparr>)"

text \<open>The attempt on the GPU, shared by the two branches that make one.\<close>

definition gpu_attempt :: "environment \<Rightarrow> string \<Rightarrow> state \<Rightarrow> state" where
  "gpu_attempt env name s =
     (let (r, s1) = call_WhisperModel env s name ''cuda'' ''float16''
      in case r of
           Inr m \<Rightarrow> print (s1\<lparr>model := Some m\<rparr>) ''[INIT] Model loaded on CUDA successfully.''
         | Inl e \<Rightarrow> cpu_fallback env e s1)"

text \<open>The model-loading block of \<^verbatim>\<open>main\<close>, from the import to the end of the handlers.\<close>

definition load_model :: "environment \<Rightarrow> state \<Rightarrow> state" where
  "load_model env s =
     (let s0 = (case faster_whisper_import env of
                  Import_raised e \<Rightarrow> print s (''[ERROR] faster_whisper import failed: '' @ e)
                | Version_raised e \<Rightarrow> print s (''[ERROR] faster_whisper import failed: '' @ e)
                | Imported v \<Rightarrow> print s (''[INIT] faster_whisper version: '' @ v));
          s1 = print s0 ''[INIT] Loading Whisper model (prefer local path if set)...'';
          no_path =
            (if dialog_answer env = Yes
             then gpu_attempt env ''tiny''
                    (print s1 ''[INIT] User agreed to download model; loading model by name (may download weights)...'')
             else (print s1 ''[INIT] No local model and user declined auto-download. Please download a model and place it under models/whisper/<model-dir> or set MODEL_PATH.'')\<lparr>model := None\<rparr>)
      in case model_path env of
           None \<Rightarrow> no_path
         | Some p \<Rightarrow>
             if p = [] then no_path
             else gpu_attempt env p (print s1 (''[INIT] Using local model path: '' @ p)))"

text \<open>Decimal digits of a number, for the lines that print a device index.\<close>

fun str_nat :: "nat \<Rightarrow> string" where
  "str_nat n =
     (if n < 10 then [char_of (48 + n)]
      else str_nat (n div 10) @ [char_of (48 + n mod 10)])"

fun device_lines :: "nat \<Rightarrow> string list \<Rightarrow> string list" where
  "device_lines i [] = []"
| "device_lines i (d # ds) = (''  '' @ str_nat i @ '': '' @ d) # device_lines (Suc i) ds"

text \<open>
  The first two statements of the stream block:
  \<^verbatim>\<open>cfg = load_config() or {}\<close> and \<^verbatim>\<open>prefer_name = cfg.get('device_name') or DEVICE_NAME\<close>.
  The second raises when the file holds a value that is true and not a dictionary.
\<close>

definition preferred_name :: "environment \<Rightarrow> string + json" where
  "preferred_name env =
     (let loaded = load_config (config_file env);
          cfg = (if truthy loaded then loaded else JDict [])
      in case py_get cfg ''device_name'' of
           Inl e \<Rightarrow> Inl e
         | Inr None \<Rightarrow> Inr (JStr DEVICE_NAME)
         | Inr (Some v) \<Rightarrow> Inr (if truthy v then v else JStr DEVICE_NAME))"

text \<open>The text of a name in a printed line; only a string can have been found.\<close>

fun name_text :: "json \<Rightarrow> string" where
  "name_text (JStr name) = name"
| "name_text _ = []"

text \<open>
  The device resolution that follows: the preferred name first, then the built-in name,
  then the default input (no index) with the device list printed.
\<close>

definition resolve_device :: "environment \<Rightarrow> json \<Rightarrow> state \<Rightarrow> nat option \<times> state" where
  "resolve_device env prefer_name s =
     (case find_device_by_name (query_devices env) prefer_name of
        Some i \<Rightarrow>
          (Some i,
           print s (''[INIT] Using device index '' @ str_nat i
                    @ '' for device name match: '' @ [CHR 0x27] @ name_text prefer_name
                    @ [CHR 0x27]))
      | None \<Rightarrow>
          (case find_device_by_name (query_devices env) (JStr DEVICE_NAME) of
             Some i \<Rightarrow>
               (Some i,
                print s (''[INIT] Using device index '' @ str_nat i
                         @ '' for default VB-Cable name heuristic''))
           | None \<Rightarrow>
               (None,
                foldl print
                  (print s (''[INIT] VB-Cable device not auto-detected; using default input.''
                            @ [CHR 0x0A] @ ''Available devices:''))
                  (case query_devices env of None \<Rightarrow> [] | Some ds \<Rightarrow> device_lines 0 ds))))"

text \<open>
  The event loop while the stream is open: a buffer from the driver runs the callback
  (an exception of the callback stays in the audio thread), a timer event runs the tick.
\<close>

fun run_events :: "engine \<Rightarrow> event list \<Rightarrow> state \<Rightarrow> state" where
  "run_events eng [] s = s"
| "run_events eng (Audio indata status # es) s = run_events eng es (snd (audio_callback indata status s))"
| "run_events eng (Timer_tick # es) s = run_events eng es (snd (process_audio eng s))"

text \<open>
  The handler of the stream block, \<^verbatim>\<open>except Exception as e\<close>: print the error and call
  \<^verbatim>\<open>sys.exit(1)\<close>.
\<close>

definition stream_failed :: "state \<Rightarrow> string \<Rightarrow> int option \<times> state" where
  "stream_failed s e = (Some 1, print s (''[ERROR] Audio stream failed: '' @ e))"

text \<open>
  The exception that leaves the \<^verbatim>\<open>with\<close> statement: the one \<^verbatim>\<open>__exit__\<close> raises, else the
  one the body raised.
\<close>

definition with_raises :: "environment \<Rightarrow> string option" where
  "with_raises env = (case stream_exit env of Some e \<Rightarrow> Some e | None \<Rightarrow> exec_raises env)"

text \<open>
  \<^verbatim>\<open>main\<close>: load the engine, create the window, and run the stream block: read the
  preferred device name, resolve the device, open the stream, run the event loop, close
  the stream. Whatever raises in the stream block reaches its handler. The result is the
  exit status passed to \<^verbatim>\<open>sys.exit\<close>, if it was called, and the final state.
\<close>

definition main :: "environment \<Rightarrow> int option \<times> state" where
  "main env =
     (let s1 = load_model env initial_state;
          s2 = s1\<lparr>window := Some CaptionWindow\<rparr>;
          s3 = print s2 ''[INIT] Starting audio stream...''
      in case preferred_name env of
           Inl e \<Rightarrow> stream_failed s3 e
         | Inr prefer_name \<Rightarrow>
             let (device_idx, s4) = resolve_device env prefer_name s3
             in (case InputStream env device_idx of
                   Inl e \<Rightarrow> stream_failed s4 e
                 | Inr _ \<Rightarrow>
                     let s5 = run_events (transcribe env) (events env) s4
                     in (case with_raises env of
                           None \<Rightarrow> (None, s5)
                         | Some e \<Rightarrow> stream_failed s5 e)))"

subsection \<open>Example values\<close>

text \<open>
  Concrete values for the examples below: an engine handle, a state of the running
  program with given frames in the queue and a given handle, and an engine whose first
  call raises and whose later calls produce one segment.
\<close>

definition tiny_on_cpu :: whisper_model where
  "tiny_on_cpu = \<lparr>model_size_or_path = ''tiny'', device = ''cpu'', compute_type = ''int8''\<rparr>"

definition running_state :: "ndarray list \<Rightarrow> whisper_model option \<Rightarrow> state" where
  "running_state frames m =
     initial_state\<lparr>audio_q := \<lparr>maxsize = AUDIO_QUEUE_MAXSIZE, items = frames\<rparr>,
                   model := m, window := Some CaptionWindow\<rparr>"

definition failing_once :: engine where
  "failing_once k m audio = (if k = 0 then ([], Some ''out of memory'') else ([''hello''], None))"




section \<open>Properties\<close>

subsection \<open>The constants\<close>

lemma MAX_QUEUE_SIZE_eq: "MAX_QUEUE_SIZE = 10"
  by (simp add: MAX_QUEUE_SIZE_def MAX_QUEUE_SECONDS_def SAMPLE_RATE_def BLOCKSIZE_def)

lemma AUDIO_QUEUE_MAXSIZE_eq: "AUDIO_QUEUE_MAXSIZE = 20"
  by (simp add: AUDIO_QUEUE_MAXSIZE_def MAX_QUEUE_SIZE_eq)

subsection \<open>The queue under pushes\<close>

lemma maxsize_push [simp]: "maxsize (push_drop_oldest q x) = maxsize q"
  by (auto simp add: push_drop_oldest_def queue_full_def get_nowait_def put_nowait_def
      qsize_def Let_def split: list.splits)

text \<open>One push into a queue within its capacity: the element goes to the back, and the
  front element leaves exactly when the queue was full.\<close>

lemma items_push:
  assumes "0 < maxsize q" and "qsize q \<le> maxsize q"
  shows "items (push_drop_oldest q x) = drop (Suc (qsize q) - maxsize q) (items q @ [x])"
proof (cases "qsize q = maxsize q")
  case True
  then obtain y ys where ys: "items q = y # ys"
    using assms by (cases "items q") (auto simp: qsize_def)
  with True assms show ?thesis
    by (simp add: push_drop_oldest_def queue_full_def get_nowait_def put_nowait_def qsize_def)
next
  case False
  with assms have "qsize q < maxsize q" by simp
  then show ?thesis
    by (simp add: push_drop_oldest_def queue_full_def get_nowait_def put_nowait_def qsize_def)
qed

lemma items_push_full:
  assumes "0 < maxsize q" and "qsize q = maxsize q"
  shows "items (push_drop_oldest q x) = tl (items q) @ [x]"
proof -
  from assms obtain y ys where "items q = y # ys"
    by (cases "items q") (auto simp: qsize_def)
  with assms show ?thesis
    by (simp add: push_drop_oldest_def queue_full_def get_nowait_def put_nowait_def qsize_def)
qed

lemma qsize_push:
  assumes "0 < maxsize q" and "qsize q \<le> maxsize q"
  shows "qsize (push_drop_oldest q x) \<le> maxsize q"
  using assms items_push [OF assms, of x] by (simp add: qsize_def)

text \<open>Any number of pushes: what is left is the tail of everything that was ever in
  the queue, cut to the capacity.\<close>

lemma foldl_push:
  assumes "0 < maxsize q" and "qsize q \<le> maxsize q"
  shows "maxsize (foldl push_drop_oldest q fs) = maxsize q
       \<and> items (foldl push_drop_oldest q fs)
           = drop (qsize q + length fs - maxsize q) (items q @ fs)"
  using assms
proof (induction fs arbitrary: q)
  case Nil
  then show ?case by (simp add: qsize_def)
next
  case (Cons f fs)
  let ?q = "push_drop_oldest q f"
  have m: "maxsize ?q = maxsize q" by simp
  have sz: "qsize ?q \<le> maxsize ?q" using qsize_push [OF Cons.prems] by simp
  have it: "items ?q = drop (Suc (qsize q) - maxsize q) (items q @ [f])"
    by (rule items_push [OF Cons.prems])
  have len: "qsize ?q = Suc (qsize q) - (Suc (qsize q) - maxsize q)"
    using it by (simp add: qsize_def)
  from Cons.IH [of ?q] Cons.prems(1) sz
  have "maxsize (foldl push_drop_oldest ?q fs) = maxsize q"
    and "items (foldl push_drop_oldest ?q fs)
           = drop (qsize ?q + length fs - maxsize q) (items ?q @ fs)"
    by simp_all
  moreover have "drop (qsize ?q + length fs - maxsize q) (items ?q @ fs)
        = drop (qsize q + length (f # fs) - maxsize q) (items q @ f # fs)"
  proof -
    define d where "d = Suc (qsize q) - maxsize q"
    have "d \<le> length (items q @ [f])"
      by (simp add: d_def qsize_def)
    then have "drop d ((items q @ [f]) @ fs) = drop d (items q @ [f]) @ fs"
      by (simp only: drop_append) simp
    then have e1: "items ?q @ fs = drop d (items q @ f # fs)"
      using it by (simp add: d_def)
    have e2: "qsize ?q + length fs - maxsize q + d = qsize q + length (f # fs) - maxsize q"
      using len Cons.prems by (simp add: d_def)
    show ?thesis
      unfolding e1 drop_drop e2 ..
  qed
  ultimately show ?case by simp
qed

text \<open>
  Claim C2. Start from any state of the queue of capacity \<open>C = AUDIO_QUEUE_MAXSIZE\<close>
  (at most \<open>C\<close> frames in it) and push \<open>N > C\<close> frames, one after the other. Then the
  queue holds exactly the last \<open>C\<close> frames pushed, in the order they were pushed; after
  every prefix of the pushes the size is at most \<open>C\<close>; and a push into a full queue
  removes the single oldest frame and puts the new one at the back.
\<close>

theorem queue_holds_last_C:
  assumes "maxsize q = AUDIO_QUEUE_MAXSIZE" and "qsize q \<le> AUDIO_QUEUE_MAXSIZE"
    and "AUDIO_QUEUE_MAXSIZE < length fs"
  shows "items (foldl push_drop_oldest q fs) = drop (length fs - AUDIO_QUEUE_MAXSIZE) fs
       \<and> (\<forall>k \<le> length fs.
             qsize (foldl push_drop_oldest q (take k fs)) \<le> AUDIO_QUEUE_MAXSIZE)
       \<and> (\<forall>k < length fs. queue_full (foldl push_drop_oldest q (take k fs)) \<longrightarrow>
             items (foldl push_drop_oldest q (take (Suc k) fs))
               = tl (items (foldl push_drop_oldest q (take k fs))) @ [fs ! k])"
proof -
  have pos: "0 < maxsize q" and le: "qsize q \<le> maxsize q"
    using assms by (simp_all add: AUDIO_QUEUE_MAXSIZE_eq)
  note run = foldl_push [OF pos le]
  have "items (foldl push_drop_oldest q fs)
          = drop (qsize q + length fs - maxsize q) (items q @ fs)"
    using run [of fs] by simp
  also have "\<dots> = drop (length fs - AUDIO_QUEUE_MAXSIZE) fs"
    using assms by (simp add: qsize_def)
  finally have last_C: "items (foldl push_drop_oldest q fs)
          = drop (length fs - AUDIO_QUEUE_MAXSIZE) fs" .
  have bound: "qsize (foldl push_drop_oldest q gs) \<le> AUDIO_QUEUE_MAXSIZE" for gs
    using run [of gs] assms(1,2) by (simp add: qsize_def)
  have evict: "items (foldl push_drop_oldest q (take (Suc k) fs))
               = tl (items (foldl push_drop_oldest q (take k fs))) @ [fs ! k]"
    if k: "k < length fs" and full: "queue_full (foldl push_drop_oldest q (take k fs))" for k
  proof -
    let ?q = "foldl push_drop_oldest q (take k fs)"
    have m: "maxsize ?q = maxsize q" using run [of "take k fs"] by simp
    have "qsize ?q \<le> maxsize ?q" using bound [of "take k fs"] m assms(1) by simp
    with full have eq: "qsize ?q = maxsize ?q" by (simp add: queue_full_def)
    have "foldl push_drop_oldest q (take (Suc k) fs) = push_drop_oldest ?q (fs ! k)"
      using k by (simp add: take_Suc_conv_app_nth)
    then show ?thesis using items_push_full [of ?q "fs ! k"] eq m pos by simp
  qed
  from last_C bound evict show ?thesis by blast
qed

text \<open>Twenty-two frames pushed into the empty queue of the program: the last twenty stay.\<close>

theorem queue_holds_last_C_witness:
  "maxsize (Queue AUDIO_QUEUE_MAXSIZE :: nat py_queue) = AUDIO_QUEUE_MAXSIZE
   \<and> qsize (Queue AUDIO_QUEUE_MAXSIZE :: nat py_queue) \<le> AUDIO_QUEUE_MAXSIZE
   \<and> AUDIO_QUEUE_MAXSIZE < length [1, 2, 3, 4, 5, 6, 7, 8, 9, 10, 11, 12, 13, 14, 15, 16,
        17, 18, 19, 20, 21, 22 :: nat]
   \<and> items (foldl push_drop_oldest (Queue AUDIO_QUEUE_MAXSIZE)
        [1, 2, 3, 4, 5, 6, 7, 8, 9, 10, 11, 12, 13, 14, 15, 16, 17, 18, 19, 20, 21, 22 :: nat])
      = [3, 4, 5, 6, 7, 8, 9, 10, 11, 12, 13, 14, 15, 16, 17, 18, 19, 20, 21, 22]"
  using queue_holds_last_C [of "Queue AUDIO_QUEUE_MAXSIZE"
        "[1, 2, 3, 4, 5, 6, 7, 8, 9, 10, 11, 12, 13, 14, 15, 16, 17, 18, 19, 20, 21, 22 :: nat]",
        THEN conjunct1]
  by (simp add: Queue_def qsize_def AUDIO_QUEUE_MAXSIZE_eq)

subsection \<open>The drain\<close>

lemma drain_up_to_eq:
  "drain_up_to n acc q = (acc @ take n (items q), q\<lparr>items := drop n (items q)\<rparr>)"
proof (induction n arbitrary: acc q)
  case 0
  then show ?case by simp
next
  case (Suc n)
  show ?case
  proof (cases "items q")
    case Nil
    then show ?thesis by (simp add: get_nowait_def)
  next
    case (Cons x xs)
    then show ?thesis using Suc [of "acc @ [x]" "q\<lparr>items := xs\<rparr>"]
      by (simp add: get_nowait_def)
  qed
qed

text \<open>
  Claim C3. For every queue and every bound \<open>n\<close>, the drain loop returns the first
  \<open>n\<close> frames of the queue (all of them when there are fewer), so at most
  \<open>min n size\<close> frames, in queue order; the frames it returns followed by the frames it
  leaves are the queue it started from, and the size goes down by the number returned.
  The loop is a total function of \<open>n\<close> steps at most, each a non-blocking \<^verbatim>\<open>get_nowait\<close>.
  On an empty queue it returns no frame and leaves the queue as it is, and the tick on an
  empty queue returns at once with the state unchanged.
\<close>

theorem drain_up_to_fifo:
  "fst (drain_up_to n [] q) = take n (items q)
   \<and> length (fst (drain_up_to n [] q)) \<le> min n (qsize q)
   \<and> items q = fst (drain_up_to n [] q) @ items (snd (drain_up_to n [] q))
   \<and> qsize (snd (drain_up_to n [] q)) + length (fst (drain_up_to n [] q)) = qsize q
   \<and> maxsize (snd (drain_up_to n [] q)) = maxsize q
   \<and> (queue_empty q \<longrightarrow> drain_up_to n [] q = ([], q))
   \<and> (queue_empty (audio_q s) \<longrightarrow> process_audio eng s = (Queue_was_empty, s))"
  by (simp add: drain_up_to_eq qsize_def queue_empty_def process_audio_def)

theorem drain_up_to_fifo_witness:
  "fst (drain_up_to 2 [] \<lparr>maxsize = 20, items = [Int16 [1], Int16 [2], Int16 [3]]\<rparr>)
     = [Int16 [1], Int16 [2]]
   \<and> items (snd (drain_up_to 2 [] \<lparr>maxsize = 20, items = [Int16 [1], Int16 [2], Int16 [3]]\<rparr>))
     = [Int16 [3]]
   \<and> queue_empty (audio_q initial_state)
   \<and> process_audio (\<lambda>k m a. ([], None)) initial_state = (Queue_was_empty, initial_state)
   \<and> queue_empty (Queue 20 :: ndarray py_queue)
   \<and> drain_up_to 5 [] (Queue 20 :: ndarray py_queue) = ([], Queue 20)"
  using drain_up_to_fifo [of 2 "\<lparr>maxsize = 20, items = [Int16 [1], Int16 [2], Int16 [3]]\<rparr>"
      initial_state "\<lambda>k m a. ([], None)"]
    drain_up_to_fifo [of 5 "Queue 20 :: ndarray py_queue" initial_state "\<lambda>k m a. ([], None)"]
  by (auto simp add: queue_empty_def initial_state_def Queue_def)

subsection \<open>The capture callback\<close>

lemma fold_max_Max: "fold max xs (x::rat) = Max (set (x # xs))"
  using Max.set_eq_fold [of x xs] by simp

lemma fold_max_absorb: "\<forall>y \<in> set xs. y \<le> x \<Longrightarrow> fold max xs (x::rat) = x"
  by (induction xs) (simp_all add: max_absorb2)

lemma np_max_replicate: "0 < n \<Longrightarrow> np_max (replicate n v) = Inr v"
  by (cases n) (simp_all add: fold_max_absorb del: fold_replicate)

lemma max_abs_zero_frame: "0 < n \<Longrightarrow> max_abs (Int16 (replicate n 0)) = Inr 0"
  by (simp add: np_abs_i16_def np_max_replicate)


text \<open>
  Claim C1. The claim says that the callback forwards every delivered frame to the queue
  and that the peak amplitude it computes never decides whether the frame is pushed. The
  callback pushes only under \<^verbatim>\<open>if max_amp > 0.01\<close>: a delivered frame of 8000 zero
  samples (one block of silence) leaves the queue and the whole state as they were.
\<close>

theorem silent_frame_not_queued:
  "audio_callback (Int16 (replicate 8000 0)) [] s = (None, s)"
  using max_abs_zero_frame [of 8000] by (simp add: audio_callback_def)

subsection \<open>The tick\<close>

lemma drained_chunks_eq: "drained_chunks s = take MAX_QUEUE_SIZE (items (audio_q s))"
  by (simp add: drained_chunks_def drain_up_to_eq)

lemma drained_queue_eq:
  "drained_queue s = (audio_q s)\<lparr>items := drop MAX_QUEUE_SIZE (items (audio_q s))\<rparr>"
  by (simp add: drained_queue_def drain_up_to_eq)

lemma drained_chunks_nonempty: "\<not> queue_empty (audio_q s) \<Longrightarrow> drained_chunks s \<noteq> []"
  by (simp add: drained_chunks_eq queue_empty_def MAX_QUEUE_SIZE_eq)

lemma process_audio_nonempty:
  assumes "\<not> queue_empty (audio_q s)"
  shows "process_audio eng s =
     (if peak_of (assembled_batch s) < 1 / 1000 then (Silent, s\<lparr>audio_q := drained_queue s\<rparr>)
      else case model s of
        None \<Rightarrow> (Model_not_loaded,
                  print (s\<lparr>audio_q := drained_queue s\<rparr>)
                    ''[ERROR] Model not loaded yet; skipping transcription.'')
      | Some m \<Rightarrow>
          (case snd (eng (length (transcribe_calls s)) m (assembled_batch s)) of
             None \<Rightarrow> Transcribed
           | Some e \<Rightarrow> Transcription_failed e,
           let s3 = foldl forward_segment
                     (s\<lparr>audio_q := drained_queue s,
                        transcribe_calls := transcribe_calls s @ [(assembled_batch s, True, ''en'')]\<rparr>)
                     (fst (eng (length (transcribe_calls s)) m (assembled_batch s)))
           in case snd (eng (length (transcribe_calls s)) m (assembled_batch s)) of
                None \<Rightarrow> s3
              | Some e \<Rightarrow> print s3 (''[ERROR] Transcription failed: '' @ e)))"
proof -
  obtain chunks q' where d: "drain_up_to MAX_QUEUE_SIZE [] (audio_q s) = (chunks, q')"
    by (cases "drain_up_to MAX_QUEUE_SIZE [] (audio_q s)")
  then have c: "chunks = drained_chunks s" and q: "q' = drained_queue s"
    by (simp_all add: drained_chunks_def drained_queue_def)
  have ne: "chunks \<noteq> []" using drained_chunks_nonempty [OF assms] c by simp
  show ?thesis
    using assms ne
    unfolding process_audio_def d assembled_batch_def c [symmetric] q [symmetric]
    by (simp add: Let_def split: option.splits prod.splits)
qed

lemma peak_of_Nil [simp]: "peak_of [] = 0"
  by (simp add: peak_of_def)

lemma peak_of_Max: "audio \<noteq> [] \<Longrightarrow> peak_of audio = Max (abs ` set audio)"
  by (cases audio) (simp_all add: peak_of_def fold_max_Max)

lemma peak_of_ge: "x \<in> set audio \<Longrightarrow> \<bar>x\<bar> \<le> peak_of audio"
  by (cases "audio = []") (auto simp: peak_of_Max)

lemma peak_of_le: "\<forall>x \<in> set audio. \<bar>x\<bar> \<le> b \<Longrightarrow> 0 \<le> b \<Longrightarrow> peak_of audio \<le> b"
  by (cases "audio = []") (auto simp: peak_of_Max)

lemma peak_of_zero: "\<forall>x \<in> set audio. x = 0 \<Longrightarrow> peak_of audio = 0"
proof -
  assume z: "\<forall>x \<in> set audio. x = 0"
  then have "peak_of audio \<le> 0" by (intro peak_of_le) auto
  moreover have "0 \<le> peak_of audio"
  proof (cases audio)
    case Nil
    then show ?thesis by simp
  next
    case (Cons a as)
    then have "\<bar>a\<bar> \<le> peak_of audio" by (intro peak_of_ge) simp
    then show ?thesis by simp
  qed
  ultimately show ?thesis by simp
qed

lemma sint16_range: "- 32768 \<le> sint (w :: 16 word) \<and> sint w \<le> 32767"
  using sint_ge [of w] sint_lt [of w] by simp

lemma normalized_sample_range:
  "- 1 \<le> (of_int (sint (w :: 16 word)) :: rat) / 32768 \<and> (of_int (sint w) :: rat) / 32768 \<le> 1"
proof -
  have "(of_int (- 32768) :: rat) \<le> of_int (sint w)" and "(of_int (sint w) :: rat) \<le> of_int 32767"
    using sint16_range [of w] by (simp_all only: of_int_le_iff)
  then show ?thesis by (simp add: field_simps del: of_int_sint)
qed

lemma normalize_int16_range:
  assumes "x \<in> set (normalize_audio (Int16 ws))"
  shows "- 1 \<le> x \<and> x \<le> 1"
proof -
  from assms have "x \<in> (\<lambda>w. of_int (sint w) / 32768) ` set ws"
    by (simp del: of_int_sint)
  then show ?thesis
  proof (rule imageE)
    fix w :: "16 word"
    assume "x = of_int (sint w) / 32768"
    then show ?thesis using normalized_sample_range [of w] by (simp del: of_int_sint)
  qed
qed

lemma concatenate_int16:
  "list_all is_int16 chunks \<Longrightarrow> concatenate chunks = Int16 (concat (map int16_data chunks))"
  by (simp add: concatenate_def)

lemma print_fields [simp]:
  "audio_q (print s l) = audio_q s" "model (print s l) = model s"
  "window (print s l) = window s" "stdout (print s l) = stdout s @ [l]"
  "load_attempts (print s l) = load_attempts s"
  "transcribe_calls (print s l) = transcribe_calls s"
  by (simp_all add: print_def)

lemma forward_segment_fields [simp]:
  "audio_q (forward_segment s t) = audio_q s" "model (forward_segment s t) = model s"
  "load_attempts (forward_segment s t) = load_attempts s"
  "transcribe_calls (forward_segment s t) = transcribe_calls s"
  "window (forward_segment s t) = map_option (\<lambda>w. append_transcript w t) (window s)"
  by (simp_all add: forward_segment_def Let_def split: option.splits)

lemma foldl_forward_fields [simp]:
  "audio_q (foldl forward_segment s ts) = audio_q s"
  "model (foldl forward_segment s ts) = model s"
  "load_attempts (foldl forward_segment s ts) = load_attempts s"
  "transcribe_calls (foldl forward_segment s ts) = transcribe_calls s"
  by (induction ts arbitrary: s) simp_all

lemma foldl_forward_window:
  "window (foldl forward_segment s ts) = map_option (\<lambda>w. foldl append_transcript w ts) (window s)"
  by (induction ts arbitrary: s) (simp_all add: option.map_comp comp_def option.map_ident)

lemma foldl_forward_stdout:
  "window s = Some w \<Longrightarrow>
   stdout (foldl forward_segment s ts) = stdout s @ map (\<lambda>t. ''[TRANSCRIPTION] '' @ t) ts"
  by (induction ts arbitrary: s w) (simp_all add: forward_segment_def)

lemma foldl_forward_stdout_no_window:
  "window s = None \<Longrightarrow>
   stdout (foldl forward_segment s ts)
     = stdout s @ concat (map (\<lambda>t. [t, ''[TRANSCRIPTION] '' @ t]) ts)"
  by (induction ts arbitrary: s) (simp_all add: forward_segment_def)

text \<open>
  Claim C5. A tick on a non-empty queue assembles a buffer and compares its peak with
  \<open>1/1000\<close>. Below the threshold the tick ends there: the state changes only by the
  frames taken out of the queue, nothing is printed and the engine is not called. At or
  above the threshold the tick reaches the engine stage: with a handle loaded the engine
  is called exactly once, on the assembled buffer, and it is called if and only if the
  peak is at or above the threshold; with no handle the tick ends at the missing-model
  message if and only if the peak is at or above the threshold.
\<close>

theorem silence_gate:
  assumes "\<not> queue_empty (audio_q s)"
  shows "(peak_of (assembled_batch s) < 1 / 1000 \<longrightarrow>
            process_audio eng s = (Silent, s\<lparr>audio_q := drained_queue s\<rparr>))
       \<and> (1 / 1000 \<le> peak_of (assembled_batch s) \<longrightarrow>
            fst (process_audio eng s) \<notin> {Queue_was_empty, No_chunks, Silent})
       \<and> (model s = None \<longrightarrow>
            (fst (process_audio eng s) = Model_not_loaded
               \<longleftrightarrow> 1 / 1000 \<le> peak_of (assembled_batch s)))
       \<and> (model s \<noteq> None \<longrightarrow>
            (transcribe_calls (snd (process_audio eng s))
               = transcribe_calls s @ [(assembled_batch s, True, ''en'')]
               \<longleftrightarrow> 1 / 1000 \<le> peak_of (assembled_batch s))
          \<and> (transcribe_calls (snd (process_audio eng s)) = transcribe_calls s
               \<longleftrightarrow> peak_of (assembled_batch s) < 1 / 1000))"
  unfolding process_audio_nonempty [OF assms]
  by (auto simp: Let_def split: option.splits)

text \<open>
  Claim C7. A tick that assembles a non-silent buffer while no engine handle is loaded
  prints exactly one line, the missing-model message, calls the engine not at all (the
  trace of calls is unchanged and the result does not depend on the engine), leaves the
  handle unset, and returns: the event loop goes on with the next event.
\<close>

theorem tick_without_model:
  assumes "\<not> queue_empty (audio_q s)"
    and "1 / 1000 \<le> peak_of (assembled_batch s)"
    and "model s = None"
  shows "process_audio eng s
           = (Model_not_loaded,
              s\<lparr>audio_q := drained_queue s,
                stdout := stdout s @ [''[ERROR] Model not loaded yet; skipping transcription.'']\<rparr>)
       \<and> transcribe_calls (snd (process_audio eng s)) = transcribe_calls s
       \<and> length (stdout (snd (process_audio eng s))) = Suc (length (stdout s))
       \<and> model (snd (process_audio eng s)) = None
       \<and> (\<forall>eng'. process_audio eng' s = process_audio eng s)
       \<and> (\<forall>es. run_events eng (Timer_tick # es) s
                 = run_events eng es (snd (process_audio eng s)))"
  using assms by (simp add: process_audio_nonempty print_def)

text \<open>
  Claim C10. When a tick ends on one of the paths that skip transcription (queue empty,
  nothing drained, silence, no engine handle), the frames it took out of the queue, at
  most \<open>MAX_QUEUE_SIZE\<close> of them, are gone: the queue afterwards is the old queue
  without them, they were not handed to the engine or the window, and the next tick
  drains from the frames that followed them.
\<close>

theorem skipped_tick_loses_frames:
  assumes "fst (process_audio eng s) \<in> {Queue_was_empty, No_chunks, Silent, Model_not_loaded}"
  shows "items (audio_q s) = drained_chunks s @ items (audio_q (snd (process_audio eng s)))
       \<and> length (drained_chunks s) \<le> MAX_QUEUE_SIZE
       \<and> items (audio_q (snd (process_audio eng s))) = drop MAX_QUEUE_SIZE (items (audio_q s))
       \<and> transcribe_calls (snd (process_audio eng s)) = transcribe_calls s
       \<and> window (snd (process_audio eng s)) = window s
       \<and> drained_chunks (snd (process_audio eng s))
           = take MAX_QUEUE_SIZE (drop MAX_QUEUE_SIZE (items (audio_q s)))"
proof (cases "queue_empty (audio_q s)")
  case True
  then show ?thesis
    by (simp add: process_audio_def queue_empty_def drained_chunks_eq)
next
  case False
  from assms show ?thesis
    unfolding process_audio_nonempty [OF False]
    by (auto simp: drained_chunks_eq drained_queue_eq split: if_splits option.splits)
qed

lemma assembled_batch_int16:
  "list_all is_int16 (drained_chunks s) \<Longrightarrow>
   assembled_batch s
     = map (\<lambda>w. of_int (sint w) / 32768) (concat (map int16_data (drained_chunks s)))"
  by (simp add: assembled_batch_def concatenate_int16 del: of_int_sint)

lemma assembled_batch_int16_range:
  assumes "list_all is_int16 (drained_chunks s)" and "x \<in> set (assembled_batch s)"
  shows "- 1 \<le> x \<and> x \<le> 1"
  using assms normalize_int16_range [of x "concat (map int16_data (drained_chunks s))"]
  by (simp add: assembled_batch_def concatenate_int16 del: of_int_sint)

lemma peak_all_zero:
  assumes "list_all is_int16 (drained_chunks s)"
    and "\<forall>w \<in> set (concat (map int16_data (drained_chunks s))). w = 0"
  shows "peak_of (assembled_batch s) = 0"
proof (rule peak_of_zero, rule ballI)
  fix x assume "x \<in> set (assembled_batch s)"
  then have "x \<in> (\<lambda>w. of_int (sint w) / 32768) ` set (concat (map int16_data (drained_chunks s)))"
    unfolding assembled_batch_int16 [OF assms(1)] set_map .
  then show "x = 0"
  proof (rule imageE)
    fix w :: "16 word"
    assume x: "x = of_int (sint w) / 32768"
      and "w \<in> set (concat (map int16_data (drained_chunks s)))"
    with assms(2) have "w = 0" by blast
    with x show "x = 0" by simp
  qed
qed

lemma peak_full_scale:
  assumes i16: "list_all is_int16 (drained_chunks s)"
    and w: "w \<in> set (concat (map int16_data (drained_chunks s)))"
    and full: "sint w = 32767 \<or> sint w = - 32768"
  shows "32767 / 32768 \<le> peak_of (assembled_batch s) \<and> peak_of (assembled_batch s) \<le> 1"
proof
  let ?x = "of_int (sint w) / 32768 :: rat"
  have "?x \<in> (\<lambda>w. of_int (sint w) / 32768) ` set (concat (map int16_data (drained_chunks s)))"
    using w by (rule imageI)
  then have "?x \<in> set (assembled_batch s)"
    unfolding assembled_batch_int16 [OF i16] set_map .
  then have "\<bar>?x\<bar> \<le> peak_of (assembled_batch s)" by (rule peak_of_ge)
  moreover have "32767 / 32768 \<le> \<bar>?x\<bar>"
    using full by (auto simp del: of_int_sint)
  ultimately show "32767 / 32768 \<le> peak_of (assembled_batch s)" by simp
next
  show "peak_of (assembled_batch s) \<le> 1"
  proof (rule peak_of_le)
    show "\<forall>x \<in> set (assembled_batch s). \<bar>x\<bar> \<le> 1"
      using assembled_batch_int16_range [OF i16] by (auto simp: abs_le_iff) 
  qed simp
qed

text \<open>
  Claim C4. A 16-bit buffer is normalised by dividing every sample by 32768, which puts
  every amplitude in \<open>[-1, 1]\<close>; a \<^verbatim>\<open>float32\<close> buffer is left as it is. The same holds
  for the buffer a tick assembles from the frames it drains. If all drained 16-bit samples
  are zero, the peak is 0 and the tick ends at the silence gate, the state changed only by
  the drained frames (no engine call). If some drained 16-bit sample is at full scale
  (\<open>32767\<close> or \<open>-32768\<close>), the peak lies between \<open>32767/32768\<close> and 1, the tick passes
  the gate and, with a handle loaded, calls the engine on the buffer.
\<close>

theorem normalization:
  "(\<forall>x \<in> set (normalize_audio (Int16 ws)). - 1 \<le> x \<and> x \<le> 1)
   \<and> normalize_audio (Int16 ws) = map (\<lambda>w. of_int (sint w) / 32768) ws
   \<and> normalize_audio (Float32 xs) = xs
   \<and> (list_all is_int16 (drained_chunks s) \<longrightarrow>
        assembled_batch s
          = map (\<lambda>w. of_int (sint w) / 32768) (concat (map int16_data (drained_chunks s)))
        \<and> (\<forall>x \<in> set (assembled_batch s). - 1 \<le> x \<and> x \<le> 1))
   \<and> (\<not> list_all is_int16 (drained_chunks s) \<longrightarrow>
        assembled_batch s = concat (map float_data (drained_chunks s)))
   \<and> (\<not> queue_empty (audio_q s) \<and> list_all is_int16 (drained_chunks s)
        \<and> (\<forall>w \<in> set (concat (map int16_data (drained_chunks s))). w = 0) \<longrightarrow>
        peak_of (assembled_batch s) = 0
        \<and> process_audio eng s = (Silent, s\<lparr>audio_q := drained_queue s\<rparr>))
   \<and> (\<not> queue_empty (audio_q s) \<and> list_all is_int16 (drained_chunks s)
        \<and> (\<exists>w \<in> set (concat (map int16_data (drained_chunks s))).
              sint w = 32767 \<or> sint w = - 32768) \<longrightarrow>
        32767 / 32768 \<le> peak_of (assembled_batch s) \<and> peak_of (assembled_batch s) \<le> 1
        \<and> fst (process_audio eng s) \<noteq> Silent
        \<and> (model s \<noteq> None \<longrightarrow>
             transcribe_calls (snd (process_audio eng s))
               = transcribe_calls s @ [(assembled_batch s, True, ''en'')]))"
proof (intro conjI impI ballI)
  fix x assume "x \<in> set (normalize_audio (Int16 ws))"
  then show "- 1 \<le> x" and "x \<le> 1" using normalize_int16_range by blast+
next
  show "normalize_audio (Int16 ws) = map (\<lambda>w. of_int (sint w) / 32768) ws"
    by (simp del: of_int_sint)
next
  show "normalize_audio (Float32 xs) = xs" by simp
next
  assume "list_all is_int16 (drained_chunks s)"
  then show "assembled_batch s
          = map (\<lambda>w. of_int (sint w) / 32768) (concat (map int16_data (drained_chunks s)))"
    by (rule assembled_batch_int16)
next
  fix x assume "list_all is_int16 (drained_chunks s)" and "x \<in> set (assembled_batch s)"
  then show "- 1 \<le> x" and "x \<le> 1" using assembled_batch_int16_range by blast+
next
  assume "\<not> list_all is_int16 (drained_chunks s)"
  then show "assembled_batch s = concat (map float_data (drained_chunks s))"
    by (simp add: assembled_batch_def concatenate_def)
next
  assume a: "\<not> queue_empty (audio_q s) \<and> list_all is_int16 (drained_chunks s)
        \<and> (\<forall>w \<in> set (concat (map int16_data (drained_chunks s))). w = 0)"
  then have p: "peak_of (assembled_batch s) = 0" using peak_all_zero by blast
  then show "peak_of (assembled_batch s) = 0" .
  from a p show "process_audio eng s = (Silent, s\<lparr>audio_q := drained_queue s\<rparr>)"
    by (simp add: process_audio_nonempty)
next
  assume a: "\<not> queue_empty (audio_q s) \<and> list_all is_int16 (drained_chunks s)
        \<and> (\<exists>w \<in> set (concat (map int16_data (drained_chunks s))).
              sint w = 32767 \<or> sint w = - 32768)"
  then have p: "32767 / 32768 \<le> peak_of (assembled_batch s) \<and> peak_of (assembled_batch s) \<le> 1"
    using peak_full_scale by blast
  then show "32767 / 32768 \<le> peak_of (assembled_batch s)" and "peak_of (assembled_batch s) \<le> 1"
    by simp_all
  from p have np: "\<not> peak_of (assembled_batch s) < 1 / 1000" by simp
  from a np show "fst (process_audio eng s) \<noteq> Silent"
    by (simp add: process_audio_nonempty split: option.splits)
  assume "model s \<noteq> None"
  with a np show "transcribe_calls (snd (process_audio eng s))
               = transcribe_calls s @ [(assembled_batch s, True, ''en'')]"
    by (auto simp add: process_audio_nonempty Let_def split: option.splits)
qed

lemma audio_callback_fields [simp]:
  "model (snd (audio_callback indata status s)) = model s"
  "window (snd (audio_callback indata status s)) = window s"
  "transcribe_calls (snd (audio_callback indata status s)) = transcribe_calls s"
  "load_attempts (snd (audio_callback indata status s)) = load_attempts s"
  by (simp_all add: audio_callback_def Let_def split: sum.splits)

lemma run_events_audio_only:
  "Timer_tick \<notin> set evs \<Longrightarrow>
   model (run_events eng evs s) = model s \<and> window (run_events eng evs s) = window s
   \<and> transcribe_calls (run_events eng evs s) = transcribe_calls s"
proof (induction evs arbitrary: s)
  case Nil
  then show ?case by simp
next
  case (Cons ev evs)
  then show ?case by (cases ev) simp_all
qed

lemma process_audio_failed:
  assumes "\<not> queue_empty (audio_q s)" and "1 / 1000 \<le> peak_of (assembled_batch s)"
    and "model s = Some m"
    and "eng (length (transcribe_calls s)) m (assembled_batch s) = (segs, Some e)"
  shows "process_audio eng s =
     (Transcription_failed e,
      print (foldl forward_segment
               (s\<lparr>audio_q := drained_queue s,
                  transcribe_calls := transcribe_calls s @ [(assembled_batch s, True, ''en'')]\<rparr>)
               segs)
        (''[ERROR] Transcription failed: '' @ e))"
  using assms by (simp add: process_audio_nonempty)

lemma process_audio_transcribed:
  assumes "\<not> queue_empty (audio_q s)" and "1 / 1000 \<le> peak_of (assembled_batch s)"
    and "model s = Some m"
    and "eng (length (transcribe_calls s)) m (assembled_batch s) = (segs, None)"
  shows "process_audio eng s =
     (Transcribed,
      foldl forward_segment
        (s\<lparr>audio_q := drained_queue s,
           transcribe_calls := transcribe_calls s @ [(assembled_batch s, True, ''en'')]\<rparr>)
        segs)"
  using assms by (simp add: process_audio_nonempty)

text \<open>
  Claim C6. Let the engine raise on the buffer of a tick (after yielding some segments or
  none). Then the tick returns normally on its failure path: the last line printed is the
  failure message, the frames of the buffer are out of the queue, and the engine handle is
  the one it was. Let buffers arrive and then the next tick run on a non-silent buffer for
  which the engine yields segments without raising: the handle is still loaded, the tick
  ends on its success path, and every segment is forwarded in order, appended to the
  window (when there is one) and printed.
\<close>

theorem transcribe_failure_contained:
  assumes "\<not> queue_empty (audio_q s)" and "1 / 1000 \<le> peak_of (assembled_batch s)"
    and "model s = Some m"
    and "eng (length (transcribe_calls s)) m (assembled_batch s) = (segs, Some e)"
    and "Timer_tick \<notin> set evs"
    and "t = run_events eng evs (snd (process_audio eng s))"
    and "\<not> queue_empty (audio_q t)" and "1 / 1000 \<le> peak_of (assembled_batch t)"
    and "eng (length (transcribe_calls t)) m (assembled_batch t) = (segs2, None)"
  shows "fst (process_audio eng s) = Transcription_failed e
       \<and> last (stdout (snd (process_audio eng s))) = ''[ERROR] Transcription failed: '' @ e
       \<and> model (snd (process_audio eng s)) = Some m
       \<and> audio_q (snd (process_audio eng s)) = drained_queue s
       \<and> model t = Some m
       \<and> fst (process_audio eng t) = Transcribed
       \<and> window (snd (process_audio eng t))
           = map_option (\<lambda>w. foldl append_transcript (foldl append_transcript w segs) segs2)
               (window s)
       \<and> stdout (snd (process_audio eng t))
           = stdout t @ (if window s = None
                         then concat (map (\<lambda>x. [x, ''[TRANSCRIPTION] '' @ x]) segs2)
                         else map (\<lambda>x. ''[TRANSCRIPTION] '' @ x) segs2)"
proof -
  let ?s' = "snd (process_audio eng s)"
  note f = process_audio_failed [where eng = eng, OF assms(1-4)]
  have s'_model: "model ?s' = Some m" and s'_window: "window ?s' = map_option (\<lambda>w. foldl append_transcript w segs) (window s)"
    using assms(3) by (simp_all add: f foldl_forward_window)
  have t_model: "model t = Some m" and t_window: "window t = window ?s'"
    using run_events_audio_only [OF assms(5), of eng ?s'] s'_model assms(6) by simp_all
  note ok = process_audio_transcribed [where eng = eng, OF assms(7,8) t_model assms(9)]
  let ?t1 = "t\<lparr>audio_q := drained_queue t,
              transcribe_calls := transcribe_calls t @ [(assembled_batch t, True, ''en'')]\<rparr>"
  have w1: "window ?t1 = window t" by simp
  have out: "stdout (foldl forward_segment ?t1 segs2)
           = stdout t @ (if window s = None
                         then concat (map (\<lambda>x. [x, ''[TRANSCRIPTION] '' @ x]) segs2)
                         else map (\<lambda>x. ''[TRANSCRIPTION] '' @ x) segs2)"
  proof (cases "window s")
    case None
    then have "window ?t1 = None" using t_window s'_window by simp
    from foldl_forward_stdout_no_window [OF this] None show ?thesis by simp
  next
    case (Some w)
    then have "window ?t1 = Some (foldl append_transcript w segs)"
      using t_window s'_window by simp
    from foldl_forward_stdout [OF this] Some show ?thesis by simp
  qed
  have win: "window (foldl forward_segment ?t1 segs2)
           = map_option (\<lambda>w. foldl append_transcript (foldl append_transcript w segs) segs2)
               (window s)"
    using t_window s'_window
    by (simp add: foldl_forward_window option.map_comp comp_def)
  show ?thesis
    using s'_model t_model out win
    by (simp add: f ok)
qed

subsection \<open>Examples\<close>

lemma running_state_simps:
  "audio_q (running_state fs m) = \<lparr>maxsize = AUDIO_QUEUE_MAXSIZE, items = fs\<rparr>"
  "model (running_state fs m) = m"
  "window (running_state fs m) = Some CaptionWindow"
  "stdout (running_state fs m) = []"
  "transcribe_calls (running_state fs m) = []"
  "load_attempts (running_state fs m) = []"
  by (simp_all add: running_state_def initial_state_def)

lemma batch_of_one_int16:
  "assembled_batch (running_state [Int16 ws] m) = map (\<lambda>w. of_int (sint w) / 32768) ws"
  by (simp add: assembled_batch_def drained_chunks_eq running_state_simps MAX_QUEUE_SIZE_eq
      concatenate_def del: of_int_sint)

theorem silence_gate_witness:
  "\<not> queue_empty (audio_q (running_state [Int16 [32]] (Some tiny_on_cpu)))
   \<and> peak_of (assembled_batch (running_state [Int16 [32]] (Some tiny_on_cpu))) < 1 / 1000
   \<and> fst (process_audio failing_once (running_state [Int16 [32]] (Some tiny_on_cpu))) = Silent
   \<and> \<not> queue_empty (audio_q (running_state [Int16 [33]] (Some tiny_on_cpu)))
   \<and> 1 / 1000 \<le> peak_of (assembled_batch (running_state [Int16 [33]] (Some tiny_on_cpu)))
   \<and> transcribe_calls (snd (process_audio failing_once (running_state [Int16 [33]] (Some tiny_on_cpu))))
       = [([33 / 32768], True, ''en'')]"
  using silence_gate [of "running_state [Int16 [32]] (Some tiny_on_cpu)" failing_once]
    silence_gate [of "running_state [Int16 [33]] (Some tiny_on_cpu)" failing_once]
  by (simp add: running_state_simps batch_of_one_int16 queue_empty_def peak_of_def)


theorem tick_without_model_witness:
  "\<not> queue_empty (audio_q (running_state [Int16 [1000]] None))
   \<and> 1 / 1000 \<le> peak_of (assembled_batch (running_state [Int16 [1000]] None))
   \<and> model (running_state [Int16 [1000]] None) = None
   \<and> fst (process_audio failing_once (running_state [Int16 [1000]] None)) = Model_not_loaded
   \<and> stdout (snd (process_audio failing_once (running_state [Int16 [1000]] None)))
       = [''[ERROR] Model not loaded yet; skipping transcription.'']
   \<and> transcribe_calls (snd (process_audio failing_once (running_state [Int16 [1000]] None))) = []"
  using tick_without_model [of "running_state [Int16 [1000]] None" failing_once]
  by (simp add: running_state_simps batch_of_one_int16 queue_empty_def peak_of_def)

lemma eleven_frames_batch:
  "assembled_batch (running_state
      [Int16 [0], Int16 [0], Int16 [0], Int16 [0], Int16 [0], Int16 [0], Int16 [0], Int16 [0],
       Int16 [0], Int16 [0], Int16 [5000]] m) = [0, 0, 0, 0, 0, 0, 0, 0, 0, 0]"
  by (simp add: assembled_batch_def drained_chunks_eq running_state_simps MAX_QUEUE_SIZE_eq
      concatenate_def)

theorem skipped_tick_loses_frames_witness:
  "fst (process_audio failing_once (running_state
      [Int16 [0], Int16 [0], Int16 [0], Int16 [0], Int16 [0], Int16 [0], Int16 [0], Int16 [0],
       Int16 [0], Int16 [0], Int16 [5000]] (Some tiny_on_cpu)))
     \<in> {Queue_was_empty, No_chunks, Silent, Model_not_loaded}
   \<and> items (audio_q (snd (process_audio failing_once (running_state
      [Int16 [0], Int16 [0], Int16 [0], Int16 [0], Int16 [0], Int16 [0], Int16 [0], Int16 [0],
       Int16 [0], Int16 [0], Int16 [5000]] (Some tiny_on_cpu))))) = [Int16 [5000]]"
proof -
  let ?s = "running_state
      [Int16 [0], Int16 [0], Int16 [0], Int16 [0], Int16 [0], Int16 [0], Int16 [0], Int16 [0],
       Int16 [0], Int16 [0], Int16 [5000]] (Some tiny_on_cpu)"
  have ne: "\<not> queue_empty (audio_q ?s)"
    by (simp add: running_state_simps queue_empty_def)
  have out: "fst (process_audio failing_once ?s) = Silent"
    by (simp add: process_audio_nonempty [OF ne] eleven_frames_batch peak_of_def)
  then have h: "fst (process_audio failing_once ?s)
     \<in> {Queue_was_empty, No_chunks, Silent, Model_not_loaded}" by simp
  from skipped_tick_loses_frames [OF h] h show ?thesis
    by (simp add: running_state_simps MAX_QUEUE_SIZE_eq)
qed

theorem normalization_witness:
  "\<not> queue_empty (audio_q (running_state [Int16 [0, 0]] (Some tiny_on_cpu)))
   \<and> list_all is_int16 (drained_chunks (running_state [Int16 [0, 0]] (Some tiny_on_cpu)))
   \<and> peak_of (assembled_batch (running_state [Int16 [0, 0]] (Some tiny_on_cpu))) = 0
   \<and> fst (process_audio failing_once (running_state [Int16 [0, 0]] (Some tiny_on_cpu))) = Silent
   \<and> \<not> queue_empty (audio_q (running_state [Int16 [12, - 32768]] (Some tiny_on_cpu)))
   \<and> list_all is_int16 (drained_chunks (running_state [Int16 [12, - 32768]] (Some tiny_on_cpu)))
   \<and> peak_of (assembled_batch (running_state [Int16 [12, - 32768]] (Some tiny_on_cpu))) = 1
   \<and> transcribe_calls (snd (process_audio failing_once
         (running_state [Int16 [12, - 32768]] (Some tiny_on_cpu))))
       = [([12 / 32768, - 1], True, ''en'')]
   \<and> normalize_audio (Int16 [32767]) = [32767 / 32768]
   \<and> normalize_audio (Float32 [1 / 2]) = [1 / 2]"
  using normalization [of "[32767]" "[1 / 2]" "running_state [Int16 [0, 0]] (Some tiny_on_cpu)"
      failing_once]
    normalization [of "[32767]" "[1 / 2]" "running_state [Int16 [12, - 32768]] (Some tiny_on_cpu)"
      failing_once]
  by (simp add: running_state_simps batch_of_one_int16 queue_empty_def peak_of_def
      drained_chunks_eq MAX_QUEUE_SIZE_eq)

lemma after_failed_tick:
  "run_events failing_once [Audio (Int16 [2000]) []]
     (snd (process_audio failing_once (running_state [Int16 [1000]] (Some tiny_on_cpu))))
   = (running_state [Int16 [2000]] (Some tiny_on_cpu))
       \<lparr>stdout := [''[ERROR] Transcription failed: out of memory''],
        transcribe_calls := [([1000 / 32768], True, ''en'')]\<rparr>"
proof -
  have ne: "\<not> queue_empty (audio_q (running_state [Int16 [1000]] (Some tiny_on_cpu)))"
    by (simp add: running_state_simps queue_empty_def)
  show ?thesis
    unfolding process_audio_nonempty [OF ne]
    apply (simp add: batch_of_one_int16 peak_of_def running_state_simps failing_once_def
        drained_queue_eq MAX_QUEUE_SIZE_eq)
    apply (simp add: audio_callback_def np_abs_i16_def push_drop_oldest_def queue_full_def
        qsize_def get_nowait_def put_nowait_def AUDIO_QUEUE_MAXSIZE_eq print_def
        running_state_def initial_state_def)
    done
qed

theorem transcribe_failure_contained_witness:
  "fst (process_audio failing_once (running_state [Int16 [1000]] (Some tiny_on_cpu)))
     = Transcription_failed ''out of memory''
   \<and> model (snd (process_audio failing_once (running_state [Int16 [1000]] (Some tiny_on_cpu))))
     = Some tiny_on_cpu
   \<and> fst (process_audio failing_once
        (run_events failing_once [Audio (Int16 [2000]) []]
          (snd (process_audio failing_once (running_state [Int16 [1000]] (Some tiny_on_cpu))))))
     = Transcribed
   \<and> window (snd (process_audio failing_once
        (run_events failing_once [Audio (Int16 [2000]) []]
          (snd (process_audio failing_once (running_state [Int16 [1000]] (Some tiny_on_cpu)))))))
     = Some (append_transcript CaptionWindow ''hello'')"
proof -
  let ?s = "running_state [Int16 [1000]] (Some tiny_on_cpu)"
  let ?t = "run_events failing_once [Audio (Int16 [2000]) []] (snd (process_audio failing_once ?s))"
  have t: "?t = (running_state [Int16 [2000]] (Some tiny_on_cpu))
       \<lparr>stdout := [''[ERROR] Transcription failed: out of memory''],
        transcribe_calls := [([1000 / 32768], True, ''en'')]\<rparr>"
    by (rule after_failed_tick)
  have tb: "assembled_batch ?t = [2000 / 32768]"
    unfolding t
    by (simp add: assembled_batch_def drained_chunks_eq running_state_simps MAX_QUEUE_SIZE_eq
        concatenate_def)
  have h1: "\<not> queue_empty (audio_q ?s)"
    by (simp add: running_state_simps queue_empty_def)
  have h2: "1 / 1000 \<le> peak_of (assembled_batch ?s)"
    by (simp add: batch_of_one_int16 peak_of_def)
  have h3: "model ?s = Some tiny_on_cpu"
    by (simp add: running_state_simps)
  have h4: "failing_once (length (transcribe_calls ?s)) tiny_on_cpu (assembled_batch ?s)
      = ([], Some ''out of memory'')"
    by (simp add: running_state_simps failing_once_def)
  have h5: "Timer_tick \<notin> set [Audio (Int16 [2000]) []]" by simp
  have h7: "\<not> queue_empty (audio_q ?t)"
    unfolding t by (simp add: running_state_simps queue_empty_def)
  have h8: "1 / 1000 \<le> peak_of (assembled_batch ?t)"
    unfolding tb by (simp add: peak_of_def)
  have h9: "failing_once (length (transcribe_calls ?t)) tiny_on_cpu (assembled_batch ?t)
      = ([''hello''], None)"
    unfolding t by (simp add: failing_once_def)
  from transcribe_failure_contained [OF h1 h2 h3 h4 h5 refl h7 h8 h9]
  show ?thesis by (simp add: running_state_simps)
qed

subsection \<open>Start-up\<close>

lemma cpu_fallback_result:
  "load_attempts (cpu_fallback env e s) =
     (if name_bound (faster_whisper_import env)
      then load_attempts s @ [(''tiny'', ''cpu'', ''int8'')] else load_attempts s)"
  "model (cpu_fallback env e s) =
     (if name_bound (faster_whisper_import env)
      then (case WhisperModel env ''tiny'' ''cpu'' ''int8'' of Inl _ \<Rightarrow> None | Inr m \<Rightarrow> Some m)
      else None)"
  "audio_q (cpu_fallback env e s) = audio_q s"
  "window (cpu_fallback env e s) = window s"
  "transcribe_calls (cpu_fallback env e s) = transcribe_calls s"
  by (simp_all add: cpu_fallback_def call_WhisperModel_def Let_def split: sum.splits)

lemma gpu_attempt_result:
  "load_attempts (gpu_attempt env n s) =
     (if name_bound (faster_whisper_import env)
      then (case WhisperModel env n ''cuda'' ''float16'' of
              Inr _ \<Rightarrow> load_attempts s @ [(n, ''cuda'', ''float16'')]
            | Inl _ \<Rightarrow> load_attempts s @ [(n, ''cuda'', ''float16''), (''tiny'', ''cpu'', ''int8'')])
      else load_attempts s)"
  "model (gpu_attempt env n s) =
     (if name_bound (faster_whisper_import env)
      then (case WhisperModel env n ''cuda'' ''float16'' of
              Inr m \<Rightarrow> Some m
            | Inl _ \<Rightarrow> (case WhisperModel env ''tiny'' ''cpu'' ''int8'' of
                          Inl _ \<Rightarrow> None | Inr m \<Rightarrow> Some m))
      else None)"
  "audio_q (gpu_attempt env n s) = audio_q s"
  "window (gpu_attempt env n s) = window s"
  "transcribe_calls (gpu_attempt env n s) = transcribe_calls s"
  by (simp_all add: gpu_attempt_def call_WhisperModel_def cpu_fallback_result Let_def
      split: sum.splits)




lemma load_model_fields [simp]:
  "audio_q (load_model env s) = audio_q s"
  "window (load_model env s) = window s"
  "transcribe_calls (load_model env s) = transcribe_calls s"
  by (simp_all add: load_model_def Let_def gpu_attempt_result
      split: option.splits import_result.splits sum.splits)

lemma foldl_print_fields [simp]:
  "audio_q (foldl print s ls) = audio_q s" "model (foldl print s ls) = model s"
  "window (foldl print s ls) = window s"
  "load_attempts (foldl print s ls) = load_attempts s"
  "transcribe_calls (foldl print s ls) = transcribe_calls s"
  by (induction ls arbitrary: s) simp_all

lemma resolve_device_fields [simp]:
  "audio_q (snd (resolve_device env name s)) = audio_q s"
  "model (snd (resolve_device env name s)) = model s"
  "window (snd (resolve_device env name s)) = window s"
  "load_attempts (snd (resolve_device env name s)) = load_attempts s"
  "transcribe_calls (snd (resolve_device env name s)) = transcribe_calls s"
  by (simp_all add: resolve_device_def split: option.splits)

lemma resolve_device_index: "fst (resolve_device env name s) = fst (resolve_device env name t)"
  by (simp add: resolve_device_def split: option.splits)

lemma process_audio_model [simp]:
  "model (snd (process_audio eng s)) = model s"
proof (cases "queue_empty (audio_q s)")
  case True
  then show ?thesis by (simp add: process_audio_def)
next
  case False
  then show ?thesis
    by (simp add: process_audio_nonempty Let_def split: option.splits)
qed

lemma run_events_model [simp]: "model (run_events eng evs s) = model s"
proof (induction evs arbitrary: s)
  case Nil
  show ?case by simp
next
  case (Cons ev evs)
  then show ?case by (cases ev) simp_all
qed

lemma stream_failed_simps [simp]:
  "fst (stream_failed s e) = Some 1"
  "snd (stream_failed s e) = print s (''[ERROR] Audio stream failed: '' @ e)"
  by (simp_all add: stream_failed_def)

text \<open>\<^verbatim>\<open>main\<close> with the state before the stream block named.\<close>

lemma main_cases:
  "main env =
     (case preferred_name env of
        Inl e \<Rightarrow>
          stream_failed
            (print ((load_model env initial_state)\<lparr>window := Some CaptionWindow\<rparr>)
               ''[INIT] Starting audio stream...'') e
      | Inr name \<Rightarrow>
          (case InputStream env (fst (resolve_device env name initial_state)) of
             Inl e \<Rightarrow>
               stream_failed
                 (snd (resolve_device env name
                    (print ((load_model env initial_state)\<lparr>window := Some CaptionWindow\<rparr>)
                       ''[INIT] Starting audio stream...''))) e
           | Inr _ \<Rightarrow>
               (case with_raises env of
                  None \<Rightarrow>
                    (None,
                     run_events (transcribe env) (events env)
                       (snd (resolve_device env name
                          (print ((load_model env initial_state)\<lparr>window := Some CaptionWindow\<rparr>)
                             ''[INIT] Starting audio stream...''))))
                | Some e \<Rightarrow>
                    stream_failed
                      (run_events (transcribe env) (events env)
                         (snd (resolve_device env name
                            (print ((load_model env initial_state)\<lparr>window := Some CaptionWindow\<rparr>)
                               ''[INIT] Starting audio stream...'')))) e)))"
proof (cases "preferred_name env")
  case (Inl e)
  then show ?thesis by (simp add: main_def)
next
  case (Inr name)
  let ?s3 = "print ((load_model env initial_state)\<lparr>window := Some CaptionWindow\<rparr>)
                   ''[INIT] Starting audio stream...''"
  have idx: "fst (resolve_device env name ?s3) = fst (resolve_device env name initial_state)"
    by (rule resolve_device_index)
  show ?thesis
    unfolding main_def Let_def split_beta Inr sum.case idx ..
qed

















text \<open>
  The case the amended claim leaves out: a configuration file that holds a list reaches the
  same handler from \<^verbatim>\<open>cfg.get\<close>, before any stream is opened.
\<close>

lemma config_not_a_dictionary:
  "config_file env = Some (JList [JStr ''x'']) \<Longrightarrow>
   fst (main env) = Some 1
   \<and> last (stdout (snd (main env)))
       = ''[ERROR] Audio stream failed: '' @ [CHR 0x27] @ ''list'' @ [CHR 0x27]
         @ '' object has no attribute '' @ [CHR 0x27] @ ''get'' @ [CHR 0x27]"
  by (simp add: main_cases preferred_name_def load_config_def)

text \<open>The device lookup on a list that holds the virtual cable.\<close>

lemma cable_is_found:
  "find_device_by_name (Some [''Microphone'', ''CABLE Output (VB-Audio Virtual Cable)''])
     (JStr DEVICE_NAME) = Some 1"
  by (simp add: find_device_by_name_def DEVICE_NAME_def lower_def lower_char_def)

end
